theory Spec2Isabelle
  imports Complex_Main "HOL-Library.Word"
begin

section \<open>click\_mb\_scanner.py: the data model\<close>

text \<open>
  The scanner keeps four module-level dictionaries keyed by the memory-type symbol.
  They are embedded as association lists in the order of the source and looked up with
  \<open>map_of\<close>; a missing key is Python's \<open>KeyError\<close>. Addresses, counts and instance
  numbers are non-negative Python integers on which the program only adds and compares,
  so they are natural numbers here.
\<close>

definition type_ranges :: "(string \<times> nat \<times> nat) list" where
  "type_ranges =
    [(''X0'', 1, 36), (''X1'', 1, 16), (''X2'', 1, 16), (''X3'', 1, 16), (''X4'', 1, 16),
     (''X5'', 1, 16), (''X6'', 1, 16), (''X7'', 1, 16), (''X8'', 1, 16), (''Y0'', 1, 36),
     (''Y1'', 1, 16), (''Y2'', 1, 16), (''Y3'', 1, 16), (''Y4'', 1, 16), (''Y5'', 1, 16),
     (''Y6'', 1, 16), (''Y7'', 1, 16), (''Y8'', 1, 16), (''C'', 1, 2000), (''T'', 1, 500),
     (''CT'', 1, 250), (''SC'', 1, 1000), (''DS'', 1, 4500), (''DD'', 1, 1000), (''DH'', 1, 500),
     (''DF'', 1, 500), (''XD'', 0, 8), (''YD'', 0, 8), (''TD'', 1, 500), (''CTD'', 1, 250),
     (''SD'', 1, 1000), (''TXT'', 1, 1000)]"

definition coil_start_addrs :: "(string \<times> nat) list" where
  "coil_start_addrs =
    [(''X0'', 0x0000), (''X1'', 0x0020), (''X2'', 0x0040), (''X3'', 0x0060), (''X4'', 0x0080),
     (''X5'', 0x00a0), (''X6'', 0x00c0), (''X7'', 0x00e0), (''X8'', 0x0100), (''Y0'', 0x2000),
     (''Y1'', 0x2020), (''Y2'', 0x2040), (''Y3'', 0x2060), (''Y4'', 0x2080), (''Y5'', 0x20a0),
     (''Y6'', 0x20c0), (''Y7'', 0x20e0), (''Y8'', 0x2100), (''C'', 0x4000), (''T'', 0xB000),
     (''CT'', 0xC000), (''SC'', 0xF000)]"

definition reg_start_addrs :: "(string \<times> nat) list" where
  "reg_start_addrs =
    [(''DS'', 0x0000), (''DD'', 0x4000), (''DH'', 0x6000), (''DF'', 0x7000), (''XD'', 0xE000),
     (''YD'', 0xE200), (''TD'', 0xB000), (''CTD'', 0xC000), (''SD'', 0xF000), (''TXT'', 0x9000)]"

definition reg_sizes :: "(string \<times> nat) list" where
  "reg_sizes =
    [(''DS'', 1), (''DD'', 2), (''DH'', 2), (''DF'', 2), (''XD'', 2), (''YD'', 2), (''TD'', 1),
     (''CTD'', 2), (''SD'', 1), (''TXT'', 2)]"

definition coil_keys :: "string list" where
  "coil_keys = map fst coil_start_addrs"

definition reg_keys :: "string list" where
  "reg_keys = map fst reg_start_addrs"

subsection \<open>Exceptions, the Modbus client, and what a run does\<close>

text \<open>
  Every exception the code can meet is a value. \<open>ModbusException\<close> stands for whatever
  the transport raises, \<open>AttributeError\<close> for a reply object without \<open>bits\<close> or
  \<open>registers\<close>.
\<close>

datatype pyerr =
  KeyError | IndexError | ValueError | StructError | NameError | AttributeError | ModbusException

text \<open>
  The pymodbus client is the four read methods the scanner calls. Each takes the address
  and the count (the \<open>unit=0x01\<close> argument is constant) and either raises or yields the
  \<open>bits\<close> or \<open>registers\<close> list of the reply. A register is a 16-bit unsigned value.
  Within one run the scanner never repeats a request, so a function of the request
  describes every possible sequence of replies.
\<close>

record client =
  connect :: bool
  read_coils :: "nat \<Rightarrow> nat \<Rightarrow> pyerr + bool list"
  read_discrete_inputs :: "nat \<Rightarrow> nat \<Rightarrow> pyerr + bool list"
  read_holding_registers :: "nat \<Rightarrow> nat \<Rightarrow> pyerr + 16 word list"
  read_input_registers :: "nat \<Rightarrow> nat \<Rightarrow> pyerr + 16 word list"

datatype fcode = Coils | DiscreteInputs | HoldingRegisters | InputRegisters

record request =
  fc :: fcode
  address :: nat
  cnt :: nat

text \<open>
  A decoded 4-byte IEEE-754 single: sign and exact magnitude of a finite number, an
  infinity, or a NaN. Python widens it to a double without changing the value.
\<close>

datatype pyfloat = Finite (negative: bool) (magnitude: real) | Infinity bool | NaN

text \<open>
  A printed line \<open><symbol><instance> : <value>\<close>. The instance number is kept as a number
  together with the way it is formatted (\<open>{b}\<close> or \<open>{b:02d}\<close>); the value keeps the
  conversion the format string applies to it.
\<close>

datatype ifmt = Plain | Pad2

datatype pyval = PBool bool | PDec nat | PHex nat | PFloat string pyfloat

datatype line = Line (sym: string) (ifmt: ifmt) (inst: nat) (val: pyval)

text \<open>
  The effect of running a piece of the scanner: the requests sent, in order, the lines
  printed, in order, and the exception that ended it, if any.
\<close>

record outcome =
  reads :: "request list"
  printed :: "line list"
  raised :: "pyerr option"

definition ok :: outcome where
  "ok = \<lparr>reads = [], printed = [], raised = None\<rparr>"

definition throw :: "pyerr \<Rightarrow> outcome" where
  "throw e = \<lparr>reads = [], printed = [], raised = Some e\<rparr>"

definition say :: "line list \<Rightarrow> outcome" where
  "say ls = \<lparr>reads = [], printed = ls, raised = None\<rparr>"

definition sent :: "fcode \<Rightarrow> nat \<Rightarrow> nat \<Rightarrow> outcome" where
  "sent f a n = \<lparr>reads = [\<lparr>fc = f, address = a, cnt = n\<rparr>], printed = [], raised = None\<rparr>"

text \<open>Sequencing of statements: what follows an exception does not run.\<close>

definition then_do :: "outcome \<Rightarrow> outcome \<Rightarrow> outcome" where
  "then_do a b =
     (if raised a = None
      then \<lparr>reads = reads a @ reads b, printed = printed a @ printed b, raised = raised b\<rparr>
      else a)"

subsection \<open>Decoding registers\<close>

text \<open>\<open>reg_val.to_bytes(2, 'big')\<close> on a 16-bit register.\<close>

definition to_bytes2_big :: "16 word \<Rightarrow> 8 word list" where
  "to_bytes2_big reg_val = [of_nat (unat reg_val div 256), of_nat (unat reg_val mod 256)]"

text \<open>\<open>[v for reg_val in bl for v in reg_val.to_bytes(2, 'big')]\<close>\<close>

definition split_registers :: "16 word list \<Rightarrow> 8 word list" where
  "split_registers bl = concat (map to_bytes2_big bl)"

text \<open>\<open>int.from_bytes(a, 'big', signed=False)\<close>\<close>

definition int_from_bytes_big :: "8 word list \<Rightarrow> nat" where
  "int_from_bytes_big a = foldl (\<lambda>acc v. acc * 256 + unat v) 0 a"

text \<open>
  The value of the IEEE-754 binary32 pattern \<open>n\<close>: 1 sign bit, 8 exponent bits with bias
  127, 23 fraction bits.
\<close>

definition binary32 :: "nat \<Rightarrow> pyfloat" where
  "binary32 n =
     (let s = (n div 2 ^ 31) mod 2; e = (n div 2 ^ 23) mod 256; m = n mod 2 ^ 23
      in if e = 255 then (if m = 0 then Infinity (s = 1) else NaN)
         else Finite (s = 1)
                (if e = 0 then real m / 2 ^ 149
                 else if 150 \<le> e then real (2 ^ 23 + m) * 2 ^ (e - 150)
                 else real (2 ^ 23 + m) / 2 ^ (150 - e)))"

text \<open>\<open>struct.unpack('>f', bytearray(a))[0]\<close>: the buffer must hold exactly 4 bytes.\<close>

definition unpack_f :: "8 word list \<Rightarrow> pyerr + pyfloat" where
  "unpack_f a = (if length a = 4 then Inr (binary32 (int_from_bytes_big a)) else Inl StructError)"

section \<open>The scanner\<close>

subsection \<open>\<open>get_coils\<close>\<close>

text \<open>
  The loop \<open>for b in range(count)\<close> of \<open>get_coils\<close>, over the list of the values of
  \<open>b\<close>. \<open>r.bits[b]\<close> raises \<open>IndexError\<close> when the reply is shorter than \<open>b + 1\<close>.
\<close>

fun coil_loop :: "string \<Rightarrow> bool list \<Rightarrow> nat list \<Rightarrow> outcome" where
  "coil_loop query_type bits [] = ok"
| "coil_loop query_type bits (b # bs) =
     (if b < length bits
      then then_do
             (if take 1 query_type = ''X'' \<or> take 1 query_type = ''Y''
              then say [Line query_type Pad2 b (PBool (bits ! b))]
              else say [Line query_type Plain b (PBool (bits ! b))])
             (coil_loop query_type bits bs)
      else throw IndexError)"

text \<open>The loop \<open>for e in range(len(rfull))\<close> of the \<open>C\<close> branch.\<close>

definition rfull_lines :: "string \<Rightarrow> bool list \<Rightarrow> line list" where
  "rfull_lines query_type rfull =
     map (\<lambda>e. Line query_type Plain (e + 1) (PBool (rfull ! e))) [0..<length rfull]"

definition get_coils :: "client \<Rightarrow> string \<Rightarrow> outcome" where
  "get_coils client query_type =
     (case map_of coil_start_addrs query_type of
        None \<Rightarrow> throw KeyError
      | Some start_addr \<Rightarrow>
     (case map_of type_ranges query_type of
        None \<Rightarrow> throw KeyError
      | Some (lo, count) \<Rightarrow>
          if query_type = ''C'' then
            then_do (sent Coils start_addr 1000)
              (case read_coils client start_addr 1000 of
                 Inl e \<Rightarrow> throw e
               | Inr bits1 \<Rightarrow>
                   then_do (sent Coils 1000 1000)
                     (case read_coils client 1000 1000 of
                        Inl e \<Rightarrow> throw e
                      | Inr bits2 \<Rightarrow> say (rfull_lines query_type (bits1 @ bits2))))
          else if take 1 query_type = ''X'' then
            then_do (sent DiscreteInputs start_addr count)
              (case read_discrete_inputs client start_addr count of
                 Inl e \<Rightarrow> throw e
               | Inr bits \<Rightarrow> coil_loop query_type bits [0..<count])
          else
            then_do (sent Coils start_addr count)
              (case read_coils client start_addr count of
                 Inl e \<Rightarrow> throw e
               | Inr bits \<Rightarrow> coil_loop query_type bits [0..<count])))"

subsection \<open>\<open>get_registers\<close>\<close>

text \<open>The inner loop \<open>for br in r.registers\<close>; \<open>name_cnt\<close> grows by one per register.\<close>

fun block_lines :: "string \<Rightarrow> nat \<Rightarrow> 16 word list \<Rightarrow> line list" where
  "block_lines query_type name_cnt [] = []"
| "block_lines query_type name_cnt (br # registers) =
     (if query_type \<in> set [''DS'', ''TD'', ''SD'']
      then Line query_type Plain name_cnt (PDec (unat br))
      else Line query_type Plain name_cnt (PHex (unat br)))
     # block_lines query_type (name_cnt + 1) registers"

text \<open>
  The loop \<open>while curr_block <= count\<close> with \<open>block_size = 100\<close>. It ends because
  \<open>curr_block\<close> grows by 100 in every round.
\<close>

function block_loop :: "client \<Rightarrow> string \<Rightarrow> nat \<Rightarrow> nat \<Rightarrow> nat \<Rightarrow> nat \<Rightarrow> outcome" where
  "block_loop client query_type start_addr count curr_block name_cnt =
     (if curr_block \<le> count then
        then_do (sent HoldingRegisters (start_addr + curr_block) 100)
          (case read_holding_registers client (start_addr + curr_block) 100 of
             Inl e \<Rightarrow> throw e
           | Inr registers \<Rightarrow>
               then_do
                 (if registers \<noteq> [] then say (block_lines query_type name_cnt registers) else ok)
                 (block_loop client query_type start_addr count (curr_block + 100)
                    (name_cnt + length registers)))
      else ok)"
  by pat_completeness auto
termination
  by (relation "measure (\<lambda>(client, query_type, start_addr, count, curr_block, name_cnt).
        Suc count - curr_block)") auto

text \<open>Python's \<open>range(start, stop, step)\<close> for a positive step, as a list.\<close>

function py_range :: "nat \<Rightarrow> nat \<Rightarrow> nat \<Rightarrow> nat list" where
  "py_range start stop step =
     (if step = 0 then []
      else if start < stop then start # py_range (start + step) stop step
      else [])"
  by pat_completeness auto
termination
  by (relation "measure (\<lambda>(start, stop, step). stop - start)") auto

text \<open>
  What one round of the \<open>else\<close> loop prints from a reply: nothing for an empty list, the
  combined integer for \<open>DD\<close>, \<open>CTD\<close>, \<open>XD\<close>, \<open>YD\<close>, the float for \<open>DF\<close>.
\<close>

definition decode_value :: "string \<Rightarrow> nat \<Rightarrow> 16 word list \<Rightarrow> outcome" where
  "decode_value query_type name_cnt registers =
     (if registers \<noteq> [] then
        then_do
          (if query_type \<in> set [''DD'', ''CTD'', ''XD'', ''YD'']
           then say [Line query_type Plain name_cnt
                       (PDec (int_from_bytes_big (split_registers registers)))]
           else ok)
          (if query_type = ''DF''
           then (case unpack_f (split_registers registers) of
                   Inl e \<Rightarrow> throw e
                 | Inr fn \<Rightarrow> say [Line query_type Plain name_cnt (PFloat ''.4f'' fn)])
           else ok)
      else ok)"

text \<open>
  The loop \<open>for b in range(type_ranges[query_type][0], count + 1, reg_sizes[query_type])\<close>,
  over the list of the values of \<open>b\<close>; \<open>name_cnt\<close> grows by one per round.
\<close>

fun multi_loop :: "client \<Rightarrow> string \<Rightarrow> nat \<Rightarrow> nat \<Rightarrow> nat list \<Rightarrow> nat \<Rightarrow> outcome" where
  "multi_loop client query_type start_addr reg_size [] name_cnt = ok"
| "multi_loop client query_type start_addr reg_size (b # bs) name_cnt =
     then_do
       (if query_type = ''XD''
        then then_do (sent InputRegisters (start_addr + b) reg_size)
               (case read_input_registers client (start_addr + b) reg_size of
                  Inl e \<Rightarrow> throw e
                | Inr registers \<Rightarrow> decode_value query_type name_cnt registers)
        else then_do (sent HoldingRegisters (start_addr + b) reg_size)
               (case read_holding_registers client (start_addr + b) reg_size of
                  Inl e \<Rightarrow> throw e
                | Inr registers \<Rightarrow> decode_value query_type name_cnt registers))
       (multi_loop client query_type start_addr reg_size bs (name_cnt + 1))"

definition get_registers :: "client \<Rightarrow> string \<Rightarrow> outcome" where
  "get_registers client query_type =
     (case map_of reg_start_addrs query_type of
        None \<Rightarrow> throw KeyError
      | Some start_addr \<Rightarrow>
     (case map_of type_ranges query_type of
        None \<Rightarrow> throw KeyError
      | Some (name_cnt, count) \<Rightarrow>
          if query_type \<in> set [''DS'', ''TD'', ''SD'', ''DH'', ''TXT'']
          then block_loop client query_type start_addr count 0 name_cnt
          else (case map_of reg_sizes query_type of
                  None \<Rightarrow> throw KeyError
                | Some reg_size \<Rightarrow>
                    if reg_size = 0 then throw ValueError
                    else multi_loop client query_type start_addr reg_size
                           (py_range name_cnt (count + 1) reg_size) name_cnt)))"

subsection \<open>\<open>main\<close>\<close>

text \<open>
  \<open>main\<close> tests \<open>args.query_type\<close> (absent when the command line has no second
  positional argument) but passes the module global \<open>query_type\<close>, which is unbound while
  \<open>main\<close> runs from the \<open>__main__\<close> guard and bound once the module-level script has
  run: the global is a parameter, and reading it unbound is \<open>NameError\<close>. The handler
  \<open>except ConnectionException\<close> names a class the module never imports, so matching any
  exception against it raises \<open>NameError\<close> in turn, and so does
  \<open>raise ConnectionException(...)\<close>.
\<close>

definition key_in :: "string option \<Rightarrow> string list \<Rightarrow> bool" where
  "key_in k keys = (case k of None \<Rightarrow> False | Some s \<Rightarrow> s \<in> set keys)"

definition main :: "client \<Rightarrow> string option \<Rightarrow> string option \<Rightarrow> outcome" where
  "main client args_query_type global_query_type =
     (let body =
        (if \<not> connect client then throw NameError
         else then_do
           (if key_in args_query_type coil_keys
            then (case global_query_type of
                    None \<Rightarrow> throw NameError
                  | Some query_type \<Rightarrow> get_coils client query_type)
            else ok)
           (if key_in args_query_type reg_keys
            then (case global_query_type of
                    None \<Rightarrow> throw NameError
                  | Some query_type \<Rightarrow> get_registers client query_type)
            else ok))
      in if raised body = None then body else body\<lparr>raised := Some NameError\<rparr>)"

subsection \<open>The module-level script\<close>

text \<open>
  Below \<open>main\<close> the file holds a second, older copy of the scanner that runs at module
  level. What is embedded here is its \<open>with ModbusClient(...)\<close> statement (lines 221 to
  294) only, with \<open>query_type\<close> the value of \<open>sys.argv[2]\<close>. The statements before it
  (lines 209 to 219: the usage message, and the listing of the type names followed by
  \<open>sys.exit()\<close> when \<open>sys.argv[1]\<close> or \<open>sys.argv[2]\<close> is \<open>list\<close>) are not part of
  the definitions below: \<open>script\<close> says what the module-level code does once it reaches
  the \<open>with\<close> statement, which it does only for a \<open>query_type\<close> other than \<open>list\<close>.
\<close>

fun script_coil_loop :: "string \<Rightarrow> bool list \<Rightarrow> nat list \<Rightarrow> outcome" where
  "script_coil_loop query_type bits [] = ok"
| "script_coil_loop query_type bits (b # bs) =
     (if b < length bits
      then then_do
             (if take 1 query_type = ''X'' \<or> take 1 query_type = ''Y''
              then say [Line query_type Pad2 b (PBool (bits ! b))]
              else say [Line query_type Plain b (PBool (bits ! b))])
             (script_coil_loop query_type bits bs)
      else throw IndexError)"

definition script_coils :: "client \<Rightarrow> string \<Rightarrow> outcome" where
  "script_coils client query_type =
     (case map_of coil_start_addrs query_type of
        None \<Rightarrow> throw KeyError
      | Some start_addr \<Rightarrow>
     (case map_of type_ranges query_type of
        None \<Rightarrow> throw KeyError
      | Some (lo, count) \<Rightarrow>
          if query_type = ''C'' then
            then_do (sent Coils start_addr 1000)
              (case read_coils client start_addr 1000 of
                 Inl e \<Rightarrow> throw e
               | Inr bits1 \<Rightarrow>
                   then_do (sent Coils 1000 1000)
                     (case read_coils client 1000 1000 of
                        Inl e \<Rightarrow> throw e
                      | Inr bits2 \<Rightarrow>
                          say (map (\<lambda>e. Line query_type Plain (e + 1) (PBool ((bits1 @ bits2) ! e)))
                                 [0..<length (bits1 @ bits2)])))
          else if take 1 query_type = ''X'' then
            then_do (sent DiscreteInputs start_addr count)
              (case read_discrete_inputs client start_addr count of
                 Inl e \<Rightarrow> throw e
               | Inr bits \<Rightarrow> script_coil_loop query_type bits [1..<count])
          else
            then_do (sent Coils start_addr count)
              (case read_coils client start_addr count of
                 Inl e \<Rightarrow> throw e
               | Inr bits \<Rightarrow> script_coil_loop query_type bits [1..<count])))"

fun script_block_lines :: "string \<Rightarrow> nat \<Rightarrow> 16 word list \<Rightarrow> line list" where
  "script_block_lines query_type name_cnt [] = []"
| "script_block_lines query_type name_cnt (br # registers) =
     (if query_type \<in> set [''DS'', ''TD'', ''SD'']
      then Line query_type Plain name_cnt (PDec (unat br))
      else Line query_type Plain name_cnt (PHex (unat br)))
     # script_block_lines query_type (name_cnt + 1) registers"

function script_block_loop ::
  "client \<Rightarrow> string \<Rightarrow> nat \<Rightarrow> nat \<Rightarrow> nat \<Rightarrow> nat \<Rightarrow> outcome" where
  "script_block_loop client query_type start_addr count curr_block name_cnt =
     (if curr_block \<le> count then
        then_do (sent HoldingRegisters (start_addr + curr_block) 100)
          (case read_holding_registers client (start_addr + curr_block) 100 of
             Inl e \<Rightarrow> throw e
           | Inr registers \<Rightarrow>
               then_do
                 (if registers \<noteq> []
                  then say (script_block_lines query_type name_cnt registers) else ok)
                 (script_block_loop client query_type start_addr count (curr_block + 100)
                    (name_cnt + length registers)))
      else ok)"
  by pat_completeness auto
termination
  by (relation "measure (\<lambda>(client, query_type, start_addr, count, curr_block, name_cnt).
        Suc count - curr_block)") auto

definition script_decode_value :: "string \<Rightarrow> nat \<Rightarrow> 16 word list \<Rightarrow> outcome" where
  "script_decode_value query_type name_cnt registers =
     (if registers \<noteq> [] then
        then_do
          (if query_type \<in> set [''DD'', ''CTD'', ''XD'', ''YD'']
           then say [Line query_type Plain name_cnt
                       (PDec (int_from_bytes_big (split_registers registers)))]
           else ok)
          (if query_type = ''DF''
           then (case unpack_f (split_registers registers) of
                   Inl e \<Rightarrow> throw e
                 | Inr fn \<Rightarrow> say [Line query_type Plain name_cnt (PFloat ''%04f'' fn)])
           else ok)
      else ok)"

fun script_multi_loop ::
  "client \<Rightarrow> string \<Rightarrow> nat \<Rightarrow> nat \<Rightarrow> nat list \<Rightarrow> nat \<Rightarrow> outcome" where
  "script_multi_loop client query_type start_addr reg_size [] name_cnt = ok"
| "script_multi_loop client query_type start_addr reg_size (b # bs) name_cnt =
     then_do
       (if query_type = ''XD''
        then then_do (sent InputRegisters (start_addr + b) reg_size)
               (case read_input_registers client (start_addr + b) reg_size of
                  Inl e \<Rightarrow> throw e
                | Inr registers \<Rightarrow> script_decode_value query_type name_cnt registers)
        else then_do (sent HoldingRegisters (start_addr + b) reg_size)
               (case read_holding_registers client (start_addr + b) reg_size of
                  Inl e \<Rightarrow> throw e
                | Inr registers \<Rightarrow> script_decode_value query_type name_cnt registers))
       (script_multi_loop client query_type start_addr reg_size bs (name_cnt + 1))"

definition script_registers :: "client \<Rightarrow> string \<Rightarrow> outcome" where
  "script_registers client query_type =
     (case map_of reg_start_addrs query_type of
        None \<Rightarrow> throw KeyError
      | Some start_addr \<Rightarrow>
     (case map_of type_ranges query_type of
        None \<Rightarrow> throw KeyError
      | Some (name_cnt, count) \<Rightarrow>
          if query_type \<in> set [''DS'', ''TD'', ''SD'', ''DH'', ''TXT'']
          then script_block_loop client query_type start_addr count 0 name_cnt
          else (case map_of reg_sizes query_type of
                  None \<Rightarrow> throw KeyError
                | Some reg_size \<Rightarrow>
                    if reg_size = 0 then throw ValueError
                    else script_multi_loop client query_type start_addr reg_size
                           (py_range name_cnt (count + 1) reg_size) name_cnt)))"

definition script :: "client \<Rightarrow> string \<Rightarrow> outcome" where
  "script client query_type =
     then_do
       (if query_type \<in> set coil_keys then script_coils client query_type else ok)
       (if query_type \<in> set reg_keys then script_registers client query_type else ok)"

subsection \<open>A controller that answers every request in full\<close>

text \<open>
  For stating what the scanner does against a well-behaved controller: a client whose
  reply to a read of \<open>n\<close> objects at address \<open>a\<close> is the \<open>n\<close> objects stored at
  \<open>a, a + 1, ..., a + n - 1\<close> of the addressed table.
\<close>

definition plc :: "(fcode \<Rightarrow> nat \<Rightarrow> bool) \<Rightarrow> (fcode \<Rightarrow> nat \<Rightarrow> 16 word) \<Rightarrow> client" where
  "plc bit_at word_at =
     \<lparr>connect = True,
      read_coils = (\<lambda>a n. Inr (map (bit_at Coils) [a..<a + n])),
      read_discrete_inputs = (\<lambda>a n. Inr (map (bit_at DiscreteInputs) [a..<a + n])),
      read_holding_registers = (\<lambda>a n. Inr (map (word_at HoldingRegisters) [a..<a + n])),
      read_input_registers = (\<lambda>a n. Inr (map (word_at InputRegisters) [a..<a + n]))\<rparr>"

definition idle_plc :: client where
  "idle_plc = plc (\<lambda>f a. False) (\<lambda>f a. 0)"

text \<open>
  A client whose register reads come back one register short of the count asked for.
\<close>

definition short_plc :: client where
  "short_plc =
     \<lparr>connect = True,
      read_coils = (\<lambda>a n. Inr (replicate n False)),
      read_discrete_inputs = (\<lambda>a n. Inr (replicate n False)),
      read_holding_registers = (\<lambda>a n. Inr (replicate (n - 1) 0)),
      read_input_registers = (\<lambda>a n. Inr (replicate (n - 1) 0))\<rparr>"

text \<open>
  A client whose holding-register read at 0xB000, the first block of \<open>TD\<close>, comes back
  empty while every other read is answered in full.
\<close>

definition gap_plc :: client where
  "gap_plc =
     \<lparr>connect = True,
      read_coils = (\<lambda>a n. Inr (replicate n False)),
      read_discrete_inputs = (\<lambda>a n. Inr (replicate n False)),
      read_holding_registers = (\<lambda>a n. if a = 0xB000 then Inr [] else Inr (replicate n 7)),
      read_input_registers = (\<lambda>a n. Inr (replicate n 7))\<rparr>"

text \<open>
  A client that does not keep to the count asked for: its holding-register read at 0xB000
  comes back empty, the one at 0xB000 + 100 comes back with 200 registers, every other
  one with the count asked for. Each register of a reply holds the offset of the request
  from 0xB000, so that a printed value tells which request it came from.
\<close>

definition long_plc :: client where
  "long_plc =
     \<lparr>connect = True,
      read_coils = (\<lambda>a n. Inr (replicate n False)),
      read_discrete_inputs = (\<lambda>a n. Inr (replicate n False)),
      read_holding_registers =
        (\<lambda>a n. Inr (replicate (if a = 0xB000 then 0 else if a = 0xB000 + 100 then 200 else n)
                       (of_nat (a - 0xB000)))),
      read_input_registers = (\<lambda>a n. Inr (replicate n 0))\<rparr>"

section \<open>Sequencing and iteration\<close>

declare block_loop.simps [simp del] script_block_loop.simps [simp del] py_range.simps [simp del]

lemma then_do_ok_left [simp]: "then_do ok b = b"
  by (simp add: then_do_def ok_def)

lemma then_do_ok_right [simp]: "then_do a ok = a"
  by (simp add: then_do_def ok_def)

lemma then_do_throw [simp]: "then_do (throw e) b = throw e"
  by (simp add: then_do_def throw_def)

lemma then_do_assoc: "then_do (then_do a b) c = then_do a (then_do b c)"
  by (simp add: then_do_def)

lemma then_do_say_say: "then_do (say xs) (say ys) = say (xs @ ys)"
  by (simp add: then_do_def say_def)

lemma say_Nil: "say [] = ok"
  by (simp add: say_def ok_def)

lemma outcome_fields [simp]:
  "reads ok = []" "printed ok = []" "raised ok = None"
  "reads (throw e) = []" "printed (throw e) = []" "raised (throw e) = Some e"
  "reads (say ls) = []" "printed (say ls) = ls" "raised (say ls) = None"
  "reads (sent f a n) = [\<lparr>fc = f, address = a, cnt = n\<rparr>]" "printed (sent f a n) = []"
  "raised (sent f a n) = None"
  by (simp_all add: ok_def throw_def say_def sent_def)

lemma then_do_sent_fields [simp]:
  "reads (then_do (sent f a n) b) = \<lparr>fc = f, address = a, cnt = n\<rparr> # reads b"
  "printed (then_do (sent f a n) b) = printed b"
  "raised (then_do (sent f a n) b) = raised b"
  by (simp_all add: then_do_def)

lemma then_do_say_fields [simp]:
  "reads (then_do (say ls) b) = reads b"
  "printed (then_do (say ls) b) = ls @ printed b"
  "raised (then_do (say ls) b) = raised b"
  by (simp_all add: then_do_def)

lemma block_lines_append:
  "block_lines q n (xs @ ys) = block_lines q n xs @ block_lines q (n + length xs) ys"
  by (induction xs arbitrary: n) simp_all

lemma length_block_lines [simp]: "length (block_lines q n xs) = length xs"
  by (induction xs arbitrary: n) simp_all

lemma nth_block_lines:
  "k < length xs \<Longrightarrow> block_lines q n xs ! k =
     Line q Plain (n + k) (if q \<in> set [''DS'', ''TD'', ''SD''] then PDec (unat (xs ! k)) else PHex (unat (xs ! k)))"
proof (induction xs arbitrary: n k)
  case Nil then show ?case by simp
next
  case (Cons x xs)
  show ?case
  proof (cases k)
    case 0 then show ?thesis by simp
  next
    case (Suc j)
    with Cons.prems have "j < length xs" by simp
    from Cons.IH [OF this, of "n + 1"] Suc show ?thesis by simp
  qed
qed

lemma block_loop_answered:
  assumes "\<And>a. read_holding_registers cl a 100 = Inr (resp a)"
  shows "block_loop cl q sa count cb nc =
     \<lparr>reads = map (\<lambda>k. \<lparr>fc = HoldingRegisters, address = sa + k, cnt = 100\<rparr>) (py_range cb (Suc count) 100),
      printed = block_lines q nc (concat (map (\<lambda>k. resp (sa + k)) (py_range cb (Suc count) 100))),
      raised = None\<rparr>"
  using assms
proof (induction cl q sa count cb nc rule: block_loop.induct)
  case (1 client query_type start_addr count curr_block name_cnt)
  show ?case
  proof (cases "curr_block \<le> count")
    case False
    then show ?thesis
      by (subst block_loop.simps, subst (1 2) py_range.simps) (simp add: ok_def)
  next
    case True
    have r: "read_holding_registers client (start_addr + curr_block) 100 = Inr (resp (start_addr + curr_block))"
      by (rule "1.prems")
    note ih = "1.IH" [OF True r "1.prems"]
    show ?thesis
      apply (subst block_loop.simps, subst (1 2) py_range.simps)
      using True
      by (simp add: r ih block_lines_append)
  qed
qed



lemma py_range_46: "py_range 0 (Suc 4500) 100 = map (\<lambda>m. 100 * m) [0..<46]"
  by (simp add: py_range.simps upt_rec)

lemma py_range_prefix:
  "0 < step \<Longrightarrow> s + k * step < stop \<Longrightarrow>
   py_range s stop step = map (\<lambda>j. s + j * step) [0..<Suc k] @ py_range (s + Suc k * step) stop step"
proof (induction k)
  case 0
  then show ?case by (subst py_range.simps) simp
next
  case (Suc k)
  then have lt: "s + k * step < stop" by simp
  have "py_range (s + Suc k * step) stop step =
        (s + Suc k * step) # py_range (s + Suc (Suc k) * step) stop step"
    using Suc.prems by (subst py_range.simps) (simp add: ac_simps)
  with Suc.IH [OF Suc.prems(1) lt] show ?case by simp
qed

lemma multi_loop_append:
  "multi_loop cl q sa sz (xs @ ys) nc =
   then_do (multi_loop cl q sa sz xs nc) (multi_loop cl q sa sz ys (nc + length xs))"
  by (induction xs arbitrary: nc) (simp_all add: then_do_assoc)


lemma decode_value_short: "decode_value ''DF'' nc [w] = throw StructError"
  by (simp add: decode_value_def unpack_f_def split_registers_def to_bytes2_big_def)

lemma length_printed_decode_value: "length (printed (decode_value q nc regs)) \<le> 1"
  by (simp add: decode_value_def then_do_def split: sum.splits)

lemma printed_then_do_le: "length (printed (then_do a b)) \<le> length (printed a) + length (printed b)"
  by (simp add: then_do_def)

lemma length_printed_multi_loop:
  "length (printed (multi_loop cl q sa sz bs nc)) \<le> length bs"
proof (induction bs arbitrary: nc)
  case Nil then show ?case by simp
next
  case (Cons b bs)
  let ?step = "(if q = ''XD''
        then then_do (sent InputRegisters (sa + b) sz)
               (case read_input_registers cl (sa + b) sz of
                  Inl e \<Rightarrow> throw e
                | Inr registers \<Rightarrow> decode_value q nc registers)
        else then_do (sent HoldingRegisters (sa + b) sz)
               (case read_holding_registers cl (sa + b) sz of
                  Inl e \<Rightarrow> throw e
                | Inr registers \<Rightarrow> decode_value q nc registers))"
  have "length (printed ?step) \<le> 1"
    using length_printed_decode_value by (simp split: sum.splits)
  moreover have "length (printed (multi_loop cl q sa sz (b # bs) nc))
      \<le> length (printed ?step) + length (printed (multi_loop cl q sa sz bs (nc + 1)))"
    by (simp only: multi_loop.simps printed_then_do_le)
  ultimately show ?case using Cons.IH [of "nc + 1"] by simp
qed

lemma get_registers_DF:
  "get_registers cl ''DF'' = multi_loop cl ''DF'' 28672 2 (py_range 1 501 2) 1"
  by (simp add: get_registers_def reg_start_addrs_def type_ranges_def reg_sizes_def)

section \<open>Decoding\<close>

lemma unat_to_bytes2_big:
  "map unat (to_bytes2_big w) = [unat w div 256, unat w mod 256]"
proof -
  have b: "unat w < 65536" using unsigned_less [of w, where ?'a=nat] by simp
  then have "unat w div 256 < 256" by simp
  then have "unat (of_nat (unat w div 256) :: 8 word) = unat w div 256"
    by (simp add: unat_of_nat)
  moreover have "unat (of_nat (unat w mod 256) :: 8 word) = unat w mod 256"
    by (simp add: unat_of_nat)
  ultimately show ?thesis by (simp add: to_bytes2_big_def)
qed

lemma int_from_split_pair:
  "int_from_bytes_big (split_registers [h, l]) = 65536 * unat h + unat l"
proof -
  have "int_from_bytes_big (split_registers [h, l]) =
        ((unat h div 256 * 256 + unat h mod 256) * 256 + unat l div 256) * 256 + unat l mod 256"
    using unat_to_bytes2_big [of h] unat_to_bytes2_big [of l]
    by (simp add: int_from_bytes_big_def split_registers_def to_bytes2_big_def)
  then show ?thesis by simp
qed


lemma pi_bits: "int_from_bytes_big (split_registers [0x4049, 0x0fdb]) = 1078530011"
  by (simp add: int_from_split_pair)

lemma pi_val: "binary32 1078530011 = Finite False (13176795 / 4194304)"
  by (simp add: binary32_def Let_def)

lemma length_split_pair: "length (split_registers [h, l]) = 4"
  by (simp add: split_registers_def to_bytes2_big_def)

text \<open>
  C8. The \<open>DF\<close> decode of registers \<open>[0x4049, 0x0fdb]\<close>: the four bytes, big-endian, read
  as an IEEE-754 single, are the positive number 13176795 / 4194304, which lies within
  1e-4 of 3.14159.
\<close>

theorem float_from_two_registers:
  "unpack_f (split_registers [0x4049, 0x0fdb]) = Inr (Finite False (13176795 / 4194304))
   \<and> \<bar>13176795 / 4194304 - 3.14159 :: real\<bar> < 1 / 10000
   \<and> decode_value ''DF'' n [0x4049, 0x0fdb]
       = say [Line ''DF'' Plain n (PFloat ''.4f'' (Finite False (13176795 / 4194304)))]"
  by (simp add: unpack_f_def pi_bits pi_val length_split_pair decode_value_def)

section \<open>Short replies to a \<open>DF\<close> read\<close>

text \<open>
  C4, as the code has it. When the reply to the \<open>DF\<close> request for the \<open>k\<close>-th value holds
  one register instead of two, the run is: the rounds for the earlier values, then that
  request, then \<open>struct.error\<close>. So the run ends with an exception, and nothing is printed
  for that request or for any later one.
\<close>

theorem short_DF_reply_raises:
  assumes "k < 250"
    and "read_holding_registers cl (28672 + (1 + k * 2)) 2 = Inr [w]"
  shows "get_registers cl ''DF'' =
           then_do (multi_loop cl ''DF'' 28672 2 (map (\<lambda>j. 1 + j * 2) [0..<k]) 1)
             (then_do (sent HoldingRegisters (28672 + (1 + k * 2)) 2) (throw StructError))
         \<and> raised (get_registers cl ''DF'') \<noteq> None
         \<and> length (printed (get_registers cl ''DF'')) \<le> k"
proof -
  let ?pre = "multi_loop cl ''DF'' 28672 2 (map (\<lambda>j. 1 + j * 2) [0..<k]) 1"
  let ?bad = "then_do (sent HoldingRegisters (28672 + (1 + k * 2)) 2) (throw StructError)"
  have "1 + k * 2 < (501::nat)" using assms(1) by simp
  from py_range_prefix [OF _ this]
  have "py_range 1 501 2 = map (\<lambda>j. 1 + j * 2) [0..<k] @ (1 + k * 2) # py_range (1 + Suc k * 2) 501 2"
    by simp
  then have "get_registers cl ''DF'' =
      then_do ?pre (multi_loop cl ''DF'' 28672 2 ((1 + k * 2) # py_range (1 + Suc k * 2) 501 2) (1 + k))"
    by (simp add: get_registers_DF multi_loop_append)
  also have "multi_loop cl ''DF'' 28672 2 ((1 + k * 2) # py_range (1 + Suc k * 2) 501 2) (1 + k) = ?bad"
    using assms(2) by (simp add: decode_value_short then_do_def)
  finally have eq: "get_registers cl ''DF'' = then_do ?pre ?bad" .
  have r: "raised (then_do ?pre ?bad) \<noteq> None"
    by (simp add: then_do_def)
  have "length (printed (then_do ?pre ?bad)) \<le> length (printed ?pre) + length (printed ?bad)"
    by (rule printed_then_do_le)
  moreover have "length (printed ?pre) \<le> k"
    using length_printed_multi_loop [of cl "''DF''" 28672 2 "map (\<lambda>j. 1 + j * 2) [0..<k]" 1] by simp
  ultimately have "length (printed (then_do ?pre ?bad)) \<le> k" by simp
  with eq r show ?thesis by simp
qed

theorem short_DF_reply_raises_witness:
  "(0::nat) < 250 \<and> read_holding_registers short_plc (28672 + (1 + 0 * 2)) 2 = Inr [0]
   \<and> raised (get_registers short_plc ''DF'') \<noteq> None
   \<and> length (printed (get_registers short_plc ''DF'')) \<le> 0"
proof -
  have h: "read_holding_registers short_plc (28672 + (1 + 0 * 2)) 2 = Inr [0]"
    by (simp add: short_plc_def)
  from short_DF_reply_raises [of 0 short_plc 0, OF _ h] h show ?thesis by simp
qed

text \<open>
  The claim as the specification words it (no exception) fails: against a client that
  answers the two-register request with one register, \<open>get_registers\<close> raises
  \<open>struct.error\<close>.
\<close>

theorem short_DF_reply_counterexample:
  "raised (get_registers short_plc ''DF'') = Some StructError"
proof -
  have "\<exists>rest. py_range 1 501 2 = 1 # rest"
    by (subst py_range.simps) simp
  then obtain rest where "py_range 1 501 2 = 1 # rest" ..
  then show ?thesis
    by (simp add: get_registers_DF short_plc_def decode_value_short then_do_def)
qed

declare upt_rec_numeral [simp del]

section \<open>Symbols that are in no table\<close>

lemma absent_key: "q \<notin> set (map fst xs) \<Longrightarrow> map_of xs q = None"
  by (simp add: map_of_eq_None_iff)

text \<open>
  C5, as the code has it. For a symbol that is in neither address table the code has no
  error of its own, and no request is sent and nothing is printed. \<open>main\<close> skips both
  branches: it ends normally when \<open>client.connect()\<close> succeeds, and with \<open>NameError\<close>
  (from the class \<open>ConnectionException\<close>, which is not imported) when it fails. The
  \<open>with\<close> statement of the module-level script, which is reached only for a symbol other
  than \<open>list\<close>, skips both branches too and ends normally. Only a direct call of
  \<open>get_coils\<close> or \<open>get_registers\<close> fails, with \<open>KeyError\<close>, before any request.
\<close>

theorem unknown_symbol:
  assumes "q \<notin> set coil_keys" and "q \<notin> set reg_keys"
  shows "main cl (Some q) g = (if connect cl then ok else throw NameError)
         \<and> (q \<noteq> ''list'' \<longrightarrow> script cl q = ok)
         \<and> get_coils cl q = throw KeyError \<and> get_registers cl q = throw KeyError"
proof -
  have m: "main cl (Some q) g = (if connect cl then ok else throw NameError)"
    using assms by (simp add: main_def key_in_def Let_def throw_def)
  have s: "script cl q = ok"
    using assms by (simp add: script_def)
  have c: "get_coils cl q = throw KeyError"
    using assms(1) by (simp add: get_coils_def coil_keys_def absent_key)
  have r: "get_registers cl q = throw KeyError"
    using assms(2) by (simp add: get_registers_def reg_keys_def absent_key)
  from m s c r show ?thesis by simp
qed

lemma ZZ_absent: "''ZZ'' \<notin> set coil_keys" "''ZZ'' \<notin> set reg_keys"
  by (simp_all add: coil_keys_def reg_keys_def coil_start_addrs_def reg_start_addrs_def)

theorem unknown_symbol_witness:
  "''ZZ'' \<notin> set coil_keys \<and> ''ZZ'' \<notin> set reg_keys \<and> ''ZZ'' \<noteq> ''list''
   \<and> connect idle_plc
   \<and> main idle_plc (Some ''ZZ'') None = ok \<and> script idle_plc ''ZZ'' = ok
   \<and> get_coils idle_plc ''ZZ'' = throw KeyError \<and> get_registers idle_plc ''ZZ'' = throw KeyError"
  using unknown_symbol [of "''ZZ''" idle_plc None] ZZ_absent
  by (simp add: idle_plc_def plc_def)

text \<open>The query for \<open>ZZ\<close>, over a connection that is up, does not fail.\<close>

theorem unknown_symbol_counterexample:
  "raised (main idle_plc (Some ''ZZ'') None) = None"
  using ZZ_absent by (simp add: main_def key_in_def Let_def idle_plc_def plc_def)

section \<open>The two reads of the \<open>C\<close> type\<close>

lemma get_coils_C:
  "get_coils cl ''C'' =
     then_do (sent Coils 16384 1000)
       (case read_coils cl 16384 1000 of
          Inl e \<Rightarrow> throw e
        | Inr bits1 \<Rightarrow>
            then_do (sent Coils 1000 1000)
              (case read_coils cl 1000 1000 of
                 Inl e \<Rightarrow> throw e
               | Inr bits2 \<Rightarrow> say (rfull_lines ''C'' (bits1 @ bits2))))"
  by (simp add: get_coils_def coil_start_addrs_def type_ranges_def)

lemma read_coils_plc: "read_coils (plc bit_at word_at) a n = Inr (map (bit_at Coils) [a..<a + n])"
  by (simp add: plc_def)

lemma read_holding_plc:
  "read_holding_registers (plc bit_at word_at) a n = Inr (map (word_at HoldingRegisters) [a..<a + n])"
  by (simp add: plc_def)

lemma get_coils_C_plc:
  "get_coils (plc bit_at word_at) ''C'' =
     \<lparr>reads = [\<lparr>fc = Coils, address = 16384, cnt = 1000\<rparr>, \<lparr>fc = Coils, address = 1000, cnt = 1000\<rparr>],
      printed = rfull_lines ''C'' (map (bit_at Coils) [16384..<16384 + 1000] @ map (bit_at Coils) [1000..<1000 + 1000]),
      raised = None\<rparr>"
  by (simp only: get_coils_C read_coils_plc sum.case)
     (simp add: then_do_def sent_def say_def)

lemma inst_rfull_lines: "map inst (rfull_lines q xs) = map Suc [0..<length xs]"
  by (simp add: rfull_lines_def comp_def)

lemma nth_rfull_lines:
  "e < length xs \<Longrightarrow> rfull_lines q xs ! e = Line q Plain (e + 1) (PBool (xs ! e))"
  by (simp add: rfull_lines_def)

text \<open>
  C2, evaluated on the code. Against a controller that answers in full, \<open>get_coils\<close> for
  \<open>C\<close> sends two requests of 1000 coils; the first starts at 0x4000, the second at the
  decimal address 1000 and not at 0x4000 + 1000. The 2000 lines are numbered 1 to 2000
  without a gap, but the line \<open>C1001\<close> shows the coil stored at address 1000.
\<close>

theorem C_second_block:
  "reads (get_coils (plc bit_at word_at) ''C'') =
     [\<lparr>fc = Coils, address = 0x4000, cnt = 1000\<rparr>, \<lparr>fc = Coils, address = 1000, cnt = 1000\<rparr>]
   \<and> map inst (printed (get_coils (plc bit_at word_at) ''C'')) = map Suc [0..<2000]
   \<and> printed (get_coils (plc bit_at word_at) ''C'') ! 1000
       = Line ''C'' Plain 1001 (PBool (bit_at Coils 1000))"
proof -
  let ?xs = "map (bit_at Coils) [16384..<16384 + 1000] @ map (bit_at Coils) [1000..<1000 + 1000]"
  have len: "length ?xs = 2000" by simp
  have n: "?xs ! 1000 = bit_at Coils 1000" by (simp add: nth_append)
  have "rfull_lines ''C'' ?xs ! 1000 = Line ''C'' Plain (1000 + 1) (PBool (?xs ! 1000))"
    by (rule nth_rfull_lines) simp
  then have l: "rfull_lines ''C'' ?xs ! 1000 = Line ''C'' Plain 1001 (PBool (bit_at Coils 1000))"
    by (simp only: n) simp
  have m: "map inst (rfull_lines ''C'' ?xs) = map Suc [0..<2000]"
    by (simp only: inst_rfull_lines len)
  show ?thesis
    by (simp only: get_coils_C_plc outcome.simps l m)
qed

text \<open>
  C1, evaluated on the code. Whatever the client answers, no request of \<open>get_coils\<close> for
  \<open>C\<close> covers the address 0x4000 + 1000 of the instance \<open>C1001\<close>: the instance range
  1..2000 is not covered by the reads.
\<close>

theorem C1001_never_read:
  "filter (\<lambda>r. address r \<le> 0x4000 + 1000 \<and> 0x4000 + 1000 < address r + cnt r)
     (reads (get_coils cl ''C'')) = []"
  by (simp add: get_coils_C split: sum.splits)

section \<open>Where the two-word types are read\<close>

lemma get_registers_DD:
  "get_registers cl ''DD'' = multi_loop cl ''DD'' 16384 2 (py_range 1 1001 2) 1"
  by (simp add: get_registers_def reg_start_addrs_def type_ranges_def reg_sizes_def)

text \<open>
  C3, evaluated on the code. The first request of \<open>get_registers\<close> for \<open>DD\<close> starts at
  0x4001, one register after the start address 0x4000 of the table, and the value printed
  as \<open>DD1\<close> is made of the registers 0x4001 and 0x4002.
\<close>

theorem DD_first_read:
  "(\<exists>rest. reads (get_registers cl ''DD'') = \<lparr>fc = HoldingRegisters, address = 0x4001, cnt = 2\<rparr> # rest)
   \<and> (\<exists>rest. printed (get_registers (plc bit_at word_at) ''DD'') =
        Line ''DD'' Plain 1 (PDec (65536 * unat (word_at HoldingRegisters 0x4001)
                                   + unat (word_at HoldingRegisters 0x4002))) # rest)"
proof -
  have "\<exists>rest. py_range 1 1001 2 = 1 # rest"
    by (subst py_range.simps) simp
  then obtain bs where bs: "py_range 1 1001 2 = 1 # bs" ..
  have run: "get_registers cl ''DD'' = multi_loop cl ''DD'' 16384 2 (1 # bs) 1" for cl
    by (simp only: get_registers_DD bs)
  have a: "\<exists>rest. reads (get_registers cl ''DD'') = \<lparr>fc = HoldingRegisters, address = 0x4001, cnt = 2\<rparr> # rest"
    by (simp add: run then_do_assoc)
  have "read_holding_registers (plc bit_at word_at) (16384 + 1) 2
        = Inr [word_at HoldingRegisters 16385, word_at HoldingRegisters 16386]"
    by (simp add: read_holding_plc upt_rec)
  then have b: "\<exists>rest. printed (get_registers (plc bit_at word_at) ''DD'') =
        Line ''DD'' Plain 1 (PDec (65536 * unat (word_at HoldingRegisters 0x4001)
                                   + unat (word_at HoldingRegisters 0x4002))) # rest"
    by (simp add: run then_do_assoc decode_value_def int_from_split_pair)
  from a b show ?thesis by simp
qed

section \<open>The blocks of the single-word types\<close>

lemma get_registers_DS:
  "get_registers cl ''DS'' = block_loop cl ''DS'' 0 4500 0 1"
  by (simp add: get_registers_def reg_start_addrs_def type_ranges_def)

lemma py_range_46': "py_range 0 4501 100 = map (\<lambda>m. 100 * m) [0..<46]"
  using py_range_46 by simp

lemma concat_blocks:
  "concat (map (\<lambda>m. map f [100 * m..<100 * m + 100]) [0..<n]) = map f [0..<100 * n]"
proof (induction n)
  case 0 then show ?case by simp
next
  case (Suc n)
  have s: "100 * Suc n = 100 * n + 100" by simp
  have e: "[0..<100 * n + 100] = [0..<100 * n] @ [100 * n..<100 * n + 100]"
    by (rule upt_add_eq_append) simp
  show ?case unfolding s e using Suc by simp
qed

text \<open>
  C6, evaluated on the code. Against a controller that answers in full, \<open>get_registers\<close>
  for \<open>DS\<close> sends 46 requests of 100 registers, the last one starting at address 4500, and
  prints 4600 lines: those of the registers 0..4599 numbered from 1, so that the register at
  address 4500 is printed as \<open>DS4501\<close>.
\<close>

theorem DS_blocks:
  "reads (get_registers (plc bit_at word_at) ''DS'')
     = map (\<lambda>m. \<lparr>fc = HoldingRegisters, address = 100 * m, cnt = 100\<rparr>) [0..<46]
   \<and> printed (get_registers (plc bit_at word_at) ''DS'')
     = block_lines ''DS'' 1 (map (word_at HoldingRegisters) [0..<4600])
   \<and> printed (get_registers (plc bit_at word_at) ''DS'') ! 4500
     = Line ''DS'' Plain 4501 (PDec (unat (word_at HoldingRegisters 4500)))"
proof -
  let ?f = "word_at HoldingRegisters"
  let ?resp = "\<lambda>a. map ?f [a..<a + 100]"
  have ans: "\<And>a. read_holding_registers (plc bit_at word_at) a 100 = Inr (?resp a)"
    by (simp add: plc_def)
  note run = block_loop_answered [of "plc bit_at word_at" ?resp "''DS''" 0 4500 0 1, OF ans]
  have c: "concat (map (\<lambda>k. ?resp (0 + k)) (py_range 0 (Suc 4500) 100)) = map ?f [0..<4600]"
    using concat_blocks [of ?f 46] by (simp add: py_range_46' comp_def)
  have r: "reads (get_registers (plc bit_at word_at) ''DS'')
     = map (\<lambda>m. \<lparr>fc = HoldingRegisters, address = 100 * m, cnt = 100\<rparr>) [0..<46]"
    by (simp only: get_registers_DS run outcome.simps) (simp add: py_range_46' comp_def)
  have p: "printed (get_registers (plc bit_at word_at) ''DS'')
     = block_lines ''DS'' 1 (map ?f [0..<4600])"
    by (simp only: get_registers_DS run outcome.simps c)
  have "block_lines ''DS'' 1 (map ?f [0..<4600]) ! 4500
     = Line ''DS'' Plain (1 + 4500) (if ''DS'' \<in> set [''DS'', ''TD'', ''SD''] then PDec (unat (map ?f [0..<4600] ! 4500)) else PHex (unat (map ?f [0..<4600] ! 4500)))"
    by (rule nth_block_lines) simp
  then have n: "block_lines ''DS'' 1 (map ?f [0..<4600]) ! 4500
     = Line ''DS'' Plain 4501 (PDec (unat (?f 4500)))"
    by simp
  from r p n show ?thesis by (simp only:)
qed


section \<open>The functions and the module-level script\<close>

lemma script_coil_loop_eq: "script_coil_loop q bits bs = coil_loop q bits bs"
  by (induction bs) simp_all

lemma script_block_lines_eq: "script_block_lines q n xs = block_lines q n xs"
  by (induction xs arbitrary: n) simp_all

lemma script_block_loop_eq:
  "script_block_loop cl q sa count cb nc = block_loop cl q sa count cb nc"
proof (induction cl q sa count cb nc rule: block_loop.induct)
  case (1 client query_type start_addr count curr_block name_cnt)
  show ?case
  proof (cases "curr_block \<le> count")
    case False
    then show ?thesis
      by (subst script_block_loop.simps, subst block_loop.simps) simp
  next
    case True
    show ?thesis
    proof (cases "read_holding_registers client (start_addr + curr_block) 100")
      case (Inl e)
      then show ?thesis
        using True by (subst script_block_loop.simps, subst block_loop.simps) simp
    next
      case (Inr registers)
      from "1.IH" [OF True Inr] Inr True show ?thesis
        by (subst script_block_loop.simps, subst block_loop.simps)
           (simp add: script_block_lines_eq)
    qed
  qed
qed

lemma script_decode_value_eq:
  "q \<noteq> ''DF'' \<Longrightarrow> script_decode_value q n regs = decode_value q n regs"
  by (simp add: script_decode_value_def decode_value_def)

lemma script_multi_loop_eq:
  "q \<noteq> ''DF'' \<Longrightarrow> script_multi_loop cl q sa sz bs nc = multi_loop cl q sa sz bs nc"
  by (induction bs arbitrary: nc) (simp_all add: script_decode_value_eq split: sum.splits)

lemma script_registers_eq:
  "q \<noteq> ''DF'' \<Longrightarrow> script_registers cl q = get_registers cl q"
  by (simp add: script_registers_def get_registers_def script_block_loop_eq
        script_multi_loop_eq split: option.splits prod.splits)

lemma script_coils_C: "script_coils cl ''C'' = get_coils cl ''C''"
  by (simp add: script_coils_def get_coils_def rfull_lines_def coil_start_addrs_def type_ranges_def
        split: sum.splits)

lemma reads_coil_loop [simp]: "reads (coil_loop q bits bs) = []"
  by (induction bs) (simp_all add: then_do_def)

lemma printed_coil_loop_Nil [simp]: "printed (coil_loop q [] bs) = []"
  by (cases bs) simp_all

lemma printed_coil_loop_tl:
  "printed (coil_loop q bits [Suc 0..<count]) = tl (printed (coil_loop q bits [0..<count]))"
proof (cases "count = 0")
  case True then show ?thesis by simp
next
  case False
  then have u: "[0..<count] = 0 # [Suc 0..<count]" by (simp add: upt_conv_Cons)
  show ?thesis
  proof (cases bits)
    case Nil then show ?thesis by (simp add: u)
  next
    case (Cons x xs) then show ?thesis by (simp add: u)
  qed
qed

lemma script_coils_tl:
  "q \<noteq> ''C'' \<Longrightarrow>
   reads (script_coils cl q) = reads (get_coils cl q)
   \<and> printed (script_coils cl q) = tl (printed (get_coils cl q))"
  by (simp add: script_coils_def get_coils_def script_coil_loop_eq printed_coil_loop_tl
        split: option.splits prod.splits sum.splits)

text \<open>
  C9, as the code has it. The script's copy and the functions agree on the \<open>C\<close> type and on
  every register symbol other than \<open>DF\<close> (same requests, same lines, same exception). For
  the other coil symbols they send the same request, and the script prints the lines of
  the function without the first one, because its loop starts at 1 and not at 0.
\<close>

theorem script_versus_functions:
  "script_coils cl ''C'' = get_coils cl ''C''
   \<and> (q \<noteq> ''DF'' \<longrightarrow> script_registers cl q = get_registers cl q)
   \<and> (q \<noteq> ''C'' \<longrightarrow> reads (script_coils cl q) = reads (get_coils cl q)
                    \<and> printed (script_coils cl q) = tl (printed (get_coils cl q)))"
  using script_coils_C script_registers_eq script_coils_tl by simp

theorem script_versus_functions_witness:
  "''DS'' \<noteq> ''DF'' \<and> ''X1'' \<noteq> ''C''
   \<and> script_registers idle_plc ''DS'' = get_registers idle_plc ''DS''
   \<and> printed (script_coils idle_plc ''X1'') = tl (printed (get_coils idle_plc ''X1''))"
  using script_versus_functions [of idle_plc "''DS''"] script_versus_functions [of idle_plc "''X1''"]
  by simp

lemma get_coils_X1:
  "get_coils cl ''X1'' =
     then_do (sent DiscreteInputs 32 16)
       (case read_discrete_inputs cl 32 16 of
          Inl e \<Rightarrow> throw e
        | Inr bits \<Rightarrow> coil_loop ''X1'' bits [0..<16])"
  by (simp add: get_coils_def coil_start_addrs_def type_ranges_def)

text \<open>For \<open>X1\<close> the two print different sequences of lines.\<close>

theorem script_versus_functions_counterexample:
  "printed (script_coils idle_plc ''X1'') \<noteq> printed (get_coils idle_plc ''X1'')"
proof -
  have u: "[0..<16] = 0 # [1..<16]" by (simp add: upt_conv_Cons)
  have "\<exists>l rest. printed (get_coils idle_plc ''X1'') = l # rest"
    by (simp add: get_coils_X1 idle_plc_def plc_def u)
  then obtain l rest where p: "printed (get_coils idle_plc ''X1'') = l # rest" by blast
  have "printed (script_coils idle_plc ''X1'') = tl (printed (get_coils idle_plc ''X1''))"
    using script_coils_tl [of "''X1''" idle_plc] by simp
  with p show ?thesis by simp
qed

section \<open>The instance numbers of the single-word types\<close>

lemma py_range_blocks:
  "py_range 0 (Suc count) 100 = map (\<lambda>i. 100 * i) [0..<Suc (count div 100)]"
proof -
  let ?k = "count div 100"
  have lt: "0 + ?k * 100 < Suc count" by simp
  have "\<not> 0 + Suc ?k * 100 < Suc count"
    using div_mult_mod_eq [of count 100] mod_less_divisor [of 100 count] by arith
  then have e: "py_range (0 + Suc ?k * 100) (Suc count) 100 = []"
    by (subst py_range.simps) simp
  have "py_range 0 (Suc count) 100 =
        map (\<lambda>j. 0 + j * 100) [0..<Suc ?k] @ py_range (0 + Suc ?k * 100) (Suc count) 100"
    by (rule py_range_prefix [OF _ lt]) simp
  then show ?thesis by (simp only: e) (simp add: mult.commute)
qed

lemma get_registers_block:
  assumes "q \<in> set [''DS'', ''TD'', ''SD'', ''DH'', ''TXT'']"
    and "map_of reg_start_addrs q = Some sa"
    and "map_of type_ranges q = Some (mn, count)"
  shows "get_registers cl q = block_loop cl q sa count 0 mn"
  using assms by (simp add: get_registers_def)

lemma printed_blocks:
  assumes "q \<in> set [''DS'', ''TD'', ''SD'', ''DH'', ''TXT'']"
    and "map_of reg_start_addrs q = Some sa"
    and "map_of type_ranges q = Some (mn, count)"
    and ans: "\<And>a. read_holding_registers cl a 100 = Inr (resp a)"
  shows "printed (get_registers cl q) =
         block_lines q mn (concat (map (\<lambda>i. resp (sa + 100 * i)) [0..<Suc (count div 100)]))"
proof -
  have "printed (get_registers cl q) =
        block_lines q mn (concat (map (\<lambda>k. resp (sa + k)) (py_range 0 (Suc count) 100)))"
    by (simp only: get_registers_block [OF assms(1-3)] block_loop_answered [of cl resp, OF ans]
          outcome.simps)
  then show ?thesis by (simp add: py_range_blocks comp_def)
qed

lemma nth_concat_block:
  assumes "m < n" and "j < length (R m)"
  shows "concat (map R [0..<n]) ! (sum_list (map (\<lambda>i. length (R i)) [0..<m]) + j) = R m ! j"
    and "sum_list (map (\<lambda>i. length (R i)) [0..<m]) + j < length (concat (map R [0..<n]))"
proof -
  have "[0..<n] = [0..<m] @ m # [Suc m..<n]"
    using assms(1) upt_add_eq_append [of 0 m "n - m"] by (simp add: upt_conv_Cons)
  then have c: "concat (map R [0..<n]) =
      concat (map R [0..<m]) @ R m @ concat (map R [Suc m..<n])"
    by simp
  have l: "length (concat (map R [0..<m])) = sum_list (map (\<lambda>i. length (R i)) [0..<m])"
    by (simp add: length_concat comp_def)
  show "concat (map R [0..<n]) ! (sum_list (map (\<lambda>i. length (R i)) [0..<m]) + j) = R m ! j"
    using assms(2) by (simp only: c l [symmetric] nth_append_length_plus) (simp add: nth_append)
  show "sum_list (map (\<lambda>i. length (R i)) [0..<m]) + j < length (concat (map R [0..<n]))"
    using assms(2) by (simp add: c l [symmetric])
qed

lemma sum_list_bounded:
  "(\<And>x. f x \<le> (c::nat)) \<Longrightarrow> sum_list (map f xs) \<le> c * length xs"
proof (induction xs)
  case Nil then show ?case by simp
next
  case (Cons x xs)
  then have "f x \<le> c" "sum_list (map f xs) \<le> c * length xs" by simp_all
  then show ?case by simp
qed

lemma earlier_gap:
  assumes b: "\<And>i. length (R i) \<le> 100" and "m0 < m" and "R m0 = []"
  shows "sum_list (map (\<lambda>i. length (R i)) [0..<m]) + 100 \<le> 100 * m"
proof -
  have s: "[0..<m] = [0..<m0] @ m0 # [Suc m0..<m]"
    using assms(2) upt_add_eq_append [of 0 m0 "m - m0"] by (simp add: upt_conv_Cons)
  have "sum_list (map (\<lambda>i. length (R i)) [0..<m0]) \<le> 100 * length [0..<m0]"
    by (rule sum_list_bounded) (rule b)
  moreover have "sum_list (map (\<lambda>i. length (R i)) [Suc m0..<m]) \<le> 100 * length [Suc m0..<m]"
    by (rule sum_list_bounded) (rule b)
  ultimately show ?thesis
    using assms(2,3) by (simp only: s) simp
qed

text \<open>
  C10, as the code has it. For a single-word type whose block reads are all answered, the
  \<open>j\<close>-th register of the reply to block \<open>m\<close> is printed at the position, and under the
  instance number \<open>min\<close> plus the position, given by the number of registers that the
  earlier blocks returned plus \<open>j\<close>: the label counts replies and does not depend on the
  address \<open>start + 100 m + j\<close> the register was read from. When an earlier block came
  back empty, the label is lower than \<open>min + 100 m + j\<close>, the instance stored at that
  address, provided that no reply is longer than the 100 registers asked for.
\<close>

theorem block_labels_count_replies:
  assumes "q \<in> set [''DS'', ''TD'', ''SD'', ''DH'', ''TXT'']"
    and "map_of reg_start_addrs q = Some sa"
    and "map_of type_ranges q = Some (mn, count)"
    and ans: "\<And>a. read_holding_registers cl a 100 = Inr (resp a)"
    and m: "m \<le> count div 100"
    and j: "j < length (resp (sa + 100 * m))"
  shows "printed (get_registers cl q) ! (sum_list (map (\<lambda>i. length (resp (sa + 100 * i))) [0..<m]) + j)
         = Line q Plain (mn + (sum_list (map (\<lambda>i. length (resp (sa + 100 * i))) [0..<m]) + j))
             (if q \<in> set [''DS'', ''TD'', ''SD'']
              then PDec (unat (resp (sa + 100 * m) ! j))
              else PHex (unat (resp (sa + 100 * m) ! j)))
       \<and> ((\<forall>a. length (resp a) \<le> 100) \<longrightarrow> (\<exists>m0<m. resp (sa + 100 * m0) = []) \<longrightarrow>
            mn + (sum_list (map (\<lambda>i. length (resp (sa + 100 * i))) [0..<m]) + j) < mn + (100 * m + j))"
proof -
  let ?R = "\<lambda>i. resp (sa + 100 * i)"
  let ?off = "sum_list (map (\<lambda>i. length (?R i)) [0..<m])"
  let ?all = "concat (map ?R [0..<Suc (count div 100)])"
  have mlt: "m < Suc (count div 100)" using m by simp
  have p: "printed (get_registers cl q) = block_lines q mn ?all"
    by (rule printed_blocks [OF assms(1-3) ans])
  have n1: "?all ! (?off + j) = ?R m ! j" and n2: "?off + j < length ?all"
    using nth_concat_block [of m "Suc (count div 100)" j ?R, OF mlt j] by simp_all
  have "block_lines q mn ?all ! (?off + j) =
        Line q Plain (mn + (?off + j))
          (if q \<in> set [''DS'', ''TD'', ''SD''] then PDec (unat (?all ! (?off + j)))
           else PHex (unat (?all ! (?off + j))))"
    by (rule nth_block_lines [OF n2])
  then have first: "printed (get_registers cl q) ! (?off + j) =
        Line q Plain (mn + (?off + j))
          (if q \<in> set [''DS'', ''TD'', ''SD''] then PDec (unat (?R m ! j))
           else PHex (unat (?R m ! j)))"
    by (simp only: p n1)
  have second: "mn + (?off + j) < mn + (100 * m + j)"
    if b: "\<forall>a. length (resp a) \<le> 100" and g: "\<exists>m0<m. resp (sa + 100 * m0) = []"
  proof -
    from g obtain m0 where "m0 < m" "?R m0 = []" by blast
    moreover have "\<And>i. length (?R i) \<le> 100" using b by simp
    ultimately have "?off + 100 \<le> 100 * m"
      using earlier_gap [of ?R m0 m] by simp
    then show ?thesis by simp
  qed
  from first second show ?thesis by blast
qed

theorem block_labels_count_replies_witness:
  "''TD'' \<in> set [''DS'', ''TD'', ''SD'', ''DH'', ''TXT'']
   \<and> map_of reg_start_addrs ''TD'' = Some 45056 \<and> map_of type_ranges ''TD'' = Some (1, 500)
   \<and> read_holding_registers gap_plc 45056 100 = Inr []
   \<and> read_holding_registers gap_plc 45156 100 = Inr (replicate 100 7)
   \<and> printed (get_registers gap_plc ''TD'') ! 0 = Line ''TD'' Plain 1 (PDec 7)"
proof -
  let ?resp = "\<lambda>a::nat. if a = 45056 then [] else replicate 100 (7 :: 16 word)"
  have h1: "''TD'' \<in> set [''DS'', ''TD'', ''SD'', ''DH'', ''TXT'']" by simp
  have h2: "map_of reg_start_addrs ''TD'' = Some 45056" by (simp add: reg_start_addrs_def)
  have h3: "map_of type_ranges ''TD'' = Some (1, 500)" by (simp add: type_ranges_def)
  have h4: "\<And>a. read_holding_registers gap_plc a 100 = Inr (?resp a)"
    by (simp add: gap_plc_def)
  have h5: "(1::nat) \<le> 500 div 100" by simp
  have h6: "0 < length (?resp (45056 + 100 * 1))" by simp
  from block_labels_count_replies [of "''TD''" 45056 1 500 gap_plc ?resp 1 0, OF h1 h2 h3 h4 h5 h6]
  have "printed (get_registers gap_plc ''TD'') ! 0 = Line ''TD'' Plain 1 (PDec 7)"
    by (simp add: upt_rec)
  with h1 h2 h3 show ?thesis by (simp add: gap_plc_def)
qed

lemma block_label_at:
  assumes "q \<in> set [''DS'', ''TD'', ''SD'', ''DH'', ''TXT'']"
    and "map_of reg_start_addrs q = Some sa"
    and "map_of type_ranges q = Some (mn, count)"
    and ans: "\<And>a. read_holding_registers cl a 100 = Inr (resp a)"
    and m: "m \<le> count div 100"
    and j: "j < length (resp (sa + 100 * m))"
  shows "printed (get_registers cl q) ! (sum_list (map (\<lambda>i. length (resp (sa + 100 * i))) [0..<m]) + j)
         = Line q Plain (mn + (sum_list (map (\<lambda>i. length (resp (sa + 100 * i))) [0..<m]) + j))
             (if q \<in> set [''DS'', ''TD'', ''SD'']
              then PDec (unat (resp (sa + 100 * m) ! j))
              else PHex (unat (resp (sa + 100 * m) ! j)))"
proof -
  let ?R = "\<lambda>i. resp (sa + 100 * i)"
  let ?off = "sum_list (map (\<lambda>i. length (?R i)) [0..<m])"
  let ?all = "concat (map ?R [0..<Suc (count div 100)])"
  have mlt: "m < Suc (count div 100)" using m by simp
  have p: "printed (get_registers cl q) = block_lines q mn ?all"
    by (rule printed_blocks [OF assms(1-3) ans])
  have n1: "?all ! (?off + j) = ?R m ! j" and n2: "?off + j < length ?all"
    using nth_concat_block [of m "Suc (count div 100)" j ?R, OF mlt j] by simp_all
  have "block_lines q mn ?all ! (?off + j) =
        Line q Plain (mn + (?off + j))
          (if q \<in> set [''DS'', ''TD'', ''SD''] then PDec (unat (?all ! (?off + j)))
           else PHex (unat (?all ! (?off + j))))"
    by (rule nth_block_lines [OF n2])
  then show ?thesis by (simp only: p n1)
qed

text \<open>
  Without the bound on the length of the replies the label need not be lower. Against
  \<open>long_plc\<close> the first block of \<open>TD\<close> comes back empty and the second with 200
  registers, so the first register of the third block, read from address 0xB000 + 200, is
  printed at position 200 as \<open>TD201\<close>, which is its own instance number 1 + 200.
\<close>

theorem block_labels_count_replies_counterexample:
  "read_holding_registers long_plc 45056 100 = Inr []
   \<and> read_holding_registers long_plc 45256 100 = Inr (replicate 100 200)
   \<and> printed (get_registers long_plc ''TD'') ! 200 = Line ''TD'' Plain 201 (PDec 200)
   \<and> \<not> inst (printed (get_registers long_plc ''TD'') ! 200) < 1 + (45256 - 45056)"
proof -
  let ?resp = "\<lambda>a::nat. replicate (if a = 45056 then 0 else if a = 45156 then 200 else 100)
                 (of_nat (a - 45056) :: 16 word)"
  have h1: "''TD'' \<in> set [''DS'', ''TD'', ''SD'', ''DH'', ''TXT'']" by simp
  have h2: "map_of reg_start_addrs ''TD'' = Some 45056" by (simp add: reg_start_addrs_def)
  have h3: "map_of type_ranges ''TD'' = Some (1, 500)" by (simp add: type_ranges_def)
  have h4: "\<And>a. read_holding_registers long_plc a 100 = Inr (?resp a)"
    by (simp add: long_plc_def)
  have h5: "(2::nat) \<le> 500 div 100" by simp
  have h6: "0 < length (?resp (45056 + 100 * 2))" by simp
  from block_label_at [of "''TD''" 45056 1 500 long_plc ?resp 2 0, OF h1 h2 h3 h4 h5 h6]
  have l: "printed (get_registers long_plc ''TD'') ! 200 = Line ''TD'' Plain 201 (PDec 200)"
    by (simp add: upt_rec)
  have r0: "read_holding_registers long_plc 45056 100 = Inr []"
    by (simp add: long_plc_def)
  have r2: "read_holding_registers long_plc 45256 100 = Inr (replicate 100 200)"
    by (simp add: long_plc_def)
  from l r0 r2 show ?thesis by simp
qed

end
